theory Spec2Isabelle
  imports Main "HOL-Library.Word"
begin

section \<open>The marker rewriter (bolder.go)\<close>

text \<open>
  A Go string is a sequence of bytes and \<^verbatim>\<open>input[i]\<close> reads one byte; an Isabelle
  \<^typ>\<open>string\<close> is a list of 8-bit characters, so the input buffer is a \<^typ>\<open>string\<close>
  and the \<^verbatim>\<open>strings.Builder\<close> is the string written so far.

  The loop of \<^verbatim>\<open>replaceInlineCodeWithBold\<close> has the state \<open>(i, inCodeBlock, result)\<close>.
  \<open>body\<close> is one iteration, including the \<^verbatim>\<open>i++\<close> of the loop header (so the
  fence branch, with its own \<^verbatim>\<open>i++\<close>, advances by two). Inside the loop
  \<open>i < length input\<close> holds, hence \<open>length input - 1\<close> does not truncate.
\<close>

definition body :: "string \<Rightarrow> nat \<times> bool \<times> string \<Rightarrow> nat \<times> bool \<times> string" where
  "body input s = (case s of (i, inCodeBlock, result) \<Rightarrow>
     if input ! i = CHR ''`'' then
       let prevBacktick = (i > 0 \<and> input ! (i - 1) = CHR ''`'');
           nextBacktick = (i < length input - 1 \<and> input ! (i + 1) = CHR ''`'')
       in if prevBacktick \<and> nextBacktick then
            (if inCodeBlock then (i + 2, False, result @ ''```'')
             else (i + 2, True, result @ ''``''))
          else if prevBacktick \<or> nextBacktick then
            (if \<not> inCodeBlock then (i + 1, inCodeBlock, result @ [input ! i])
             else (i + 1, inCodeBlock, result))
          else
            (if \<not> inCodeBlock then (i + 1, inCodeBlock, result @ ''**'')
             else (i + 1, inCodeBlock, result @ [input ! i]))
     else (i + 1, inCodeBlock, result @ [input ! i]))"

function loop :: "string \<Rightarrow> nat \<times> bool \<times> string \<Rightarrow> nat \<times> bool \<times> string" where
  "loop input s = (if fst s < length input then loop input (body input s) else s)"
  by pat_completeness auto
termination
  by (relation "measure (\<lambda>(input, s). length input - fst s)")
     (auto simp: body_def Let_def split: prod.splits)

declare loop.simps [simp del]

definition replaceInlineCodeWithBold :: "string \<Rightarrow> string" where
  "replaceInlineCodeWithBold input = snd (snd (loop input (0, False, [])))"

text \<open>The state of the loop after \<open>n\<close> iterations (fewer when the loop has ended).\<close>

fun iterate :: "string \<Rightarrow> nat \<Rightarrow> nat \<times> bool \<times> string \<Rightarrow> nat \<times> bool \<times> string" where
  "iterate input 0 s = s"
| "iterate input (Suc n) s =
     (if fst s < length input then iterate input n (body input s) else s)"

subsection \<open>Auxiliary notions used in the statements and proofs\<close>

text \<open>
  \<open>scan p b xs\<close> is the output the loop appends for the rest \<open>xs\<close> of the input, where
  \<open>p\<close> says that the byte before \<open>xs\<close> is a backtick and \<open>b\<close> is the mode flag. It is
  proved equal to the loop below (\<open>loop_scan\<close>) and gives structural induction.
\<close>

fun scan :: "bool \<Rightarrow> bool \<Rightarrow> string \<Rightarrow> string" where
  "scan p b [] = []"
| "scan p b [c] =
     (if c = CHR ''`'' then
        (if p then (if \<not> b then [c] else [])
         else (if \<not> b then ''**'' else [c]))
      else [c])"
| "scan p b (c # d # ds) =
     (if c = CHR ''`'' then
        (if p \<and> d = CHR ''`'' then
           (if b then ''```'' @ scan True False ds else ''``'' @ scan True True ds)
         else if p \<or> d = CHR ''`'' then
           (if \<not> b then c # scan True b (d # ds) else scan True b (d # ds))
         else
           (if \<not> b then ''**'' @ scan True b (d # ds) else c # scan True b (d # ds)))
      else c # scan False b (d # ds))"

text \<open>The number of backtick bytes of a text.\<close>

definition backticks :: "string \<Rightarrow> nat" where
  "backticks xs = length (filter (\<lambda>c. c = CHR ''`'') xs)"

text \<open>
  \<open>maxBacktickRun k xs\<close> is the length of the longest run of consecutive backticks in
  \<open>xs\<close>, where \<open>k\<close> backticks stand immediately before \<open>xs\<close>.
\<close>

fun maxBacktickRun :: "nat \<Rightarrow> string \<Rightarrow> nat" where
  "maxBacktickRun k [] = k"
| "maxBacktickRun k (c # cs) =
     (if c = CHR ''`'' then maxBacktickRun (Suc k) cs else max k (maxBacktickRun 0 cs))"

section \<open>The PNG to JPEG walker (package main with ToJpeg)\<close>

text \<open>
  The walker calls the operating system and the image codecs of the Go library. They are
  parameters of the model: a record \<open>sys\<close> of functions over an arbitrary type \<open>'w\<close> of
  file-system states and an arbitrary type \<open>'img\<close> of decoded images. An \<^verbatim>\<open>error\<close>
  value is modelled by its message, as \<^verbatim>\<open>%s\<close> prints it.
\<close>

type_synonym bytes = "8 word list"

type_synonym error = string

record fileInfo =
  IsDir :: bool

record ('w, 'img) sys =
  os_ReadFile :: "'w \<Rightarrow> string \<Rightarrow> error + bytes"
  os_WriteFile :: "'w \<Rightarrow> string \<Rightarrow> bytes \<Rightarrow> error option \<times> 'w"
  os_RemoveAll :: "'w \<Rightarrow> string \<Rightarrow> error option \<times> 'w"
  png_Decode :: "bytes \<Rightarrow> error + 'img"
  jpeg_Encode :: "'img \<Rightarrow> error + bytes"

text \<open>
  The state of the running program: the file system, the calls made to it so far (in
  order), the lines written by \<^verbatim>\<open>log.Printf\<close> and \<^verbatim>\<open>log.Fatalf\<close>, and the lines
  written by \<^verbatim>\<open>fmt.Printf\<close>.
\<close>

datatype call = ReadFile string | WriteFile string bytes | RemoveAll string

record 'w process =
  world :: 'w
  calls :: "call list"
  logged :: "string list"
  printed :: "string list"

definition logPrintf :: "string \<Rightarrow> 'w process \<Rightarrow> 'w process" where
  "logPrintf msg s = s\<lparr>logged := logged s @ [msg]\<rparr>"

definition ToJpeg :: "('w, 'img) sys \<Rightarrow> bytes \<Rightarrow> error + bytes" where
  "ToJpeg sys imageBytes =
     (case png_Decode sys imageBytes of
        Inl err \<Rightarrow> Inl err
      | Inr img \<Rightarrow>
          (case jpeg_Encode sys img of
             Inl err \<Rightarrow> Inl err
           | Inr buf \<Rightarrow> Inr buf))"

definition directoryPath :: string where
  "directoryPath = ''/Users/chukwuemeriwoukeje/Downloads''"

text \<open>
  The functions of \<^verbatim>\<open>path/filepath\<close> that the walker uses, for the separator \<open>/\<close>.
  \<open>Ext\<close> is the suffix that begins at the last dot of the last element of the path, empty
  when that element has no dot. \<open>Base\<close> is the last element of the path after trailing
  separators are removed (\<open>.\<close> for the empty path, \<open>/\<close> for a path of separators only).
  \<open>Join\<close> puts a separator between its arguments; the library also cleans the result,
  which changes nothing where the walker calls it: the first argument is the clean path
  \<open>directoryPath\<close> and the second a file name without separator that ends in \<open>.jpg\<close>.
\<close>

definition Ext :: "string \<Rightarrow> string" where
  "Ext path =
     (let t = takeWhile (\<lambda>c. c \<noteq> CHR ''/'') (rev path)
      in if CHR ''.'' \<in> set t then CHR ''.'' # rev (takeWhile (\<lambda>c. c \<noteq> CHR ''.'') t) else [])"

definition Base :: "string \<Rightarrow> string" where
  "Base path =
     (if path = [] then ''.''
      else let p = rev (dropWhile (\<lambda>c. c = CHR ''/'') (rev path));
               e = rev (takeWhile (\<lambda>c. c \<noteq> CHR ''/'') (rev p))
           in if e = [] then ''/'' else e)"

definition Join :: "string \<Rightarrow> string \<Rightarrow> string" where
  "Join dir name = dir @ ''/'' @ name"

text \<open>
  The two lines that compute \<^verbatim>\<open>baseName\<close> and \<^verbatim>\<open>outputPath\<close>. The slice
  \<^verbatim>\<open>baseName[:len(baseName)-len(extension)]\<close> is \<open>take\<close>; it is only evaluated when the
  extension is \<open>.png\<close>, and then the base name ends in \<open>.png\<close> (\<open>Ext_png_Base\<close> below),
  so the subtraction does not truncate.
\<close>

definition outputPath :: "string \<Rightarrow> string \<Rightarrow> string" where
  "outputPath path extension =
     (let baseName = Base path
      in Join directoryPath (take (length baseName - length extension) baseName @ ''.jpg''))"

text \<open>
  The function literal passed to \<^verbatim>\<open>filepath.Walk\<close>. It returns the error that stops the
  walk, or \<open>None\<close> for \<^verbatim>\<open>nil\<close>, and the new state. \<^verbatim>\<open>filepath.Walk\<close> passes a usable
  \<^verbatim>\<open>info\<close> whenever \<^verbatim>\<open>err\<close> is \<^verbatim>\<open>nil\<close>, and the function reads \<^verbatim>\<open>info\<close> only
  then.
\<close>

definition walkFn ::
  "('w, 'img) sys \<Rightarrow> string \<Rightarrow> fileInfo \<Rightarrow> error option \<Rightarrow> 'w process \<Rightarrow>
     error option \<times> 'w process" where
  "walkFn sys path info err s =
     (case err of
        Some e \<Rightarrow> (Some e, s)
      | None \<Rightarrow>
          if IsDir info then (None, s)
          else
            let extension = Ext path in
            if extension = ''.png'' then
              (let s1 = s\<lparr>calls := calls s @ [ReadFile path]\<rparr> in
               case os_ReadFile sys (world s) path of
                 Inl e \<Rightarrow> (None, logPrintf (''Failed to read image file: '' @ e) s1)
               | Inr imageBytes \<Rightarrow>
                   (case ToJpeg sys imageBytes of
                      Inl e \<Rightarrow> (None, logPrintf (''Failed to convert image: '' @ e) s1)
                    | Inr jpegBytes \<Rightarrow>
                        (case os_WriteFile sys (world s1) (outputPath path extension) jpegBytes of
                           (Some e, w2) \<Rightarrow>
                             (None, logPrintf (''Failed to write JPEG file: '' @ e)
                                (s1\<lparr>world := w2,
                                    calls := calls s1 @
                                      [WriteFile (outputPath path extension) jpegBytes]\<rparr>))
                         | (None, w2) \<Rightarrow>
                             (case os_RemoveAll sys w2 path of
                                (Some e, w3) \<Rightarrow>
                                  (None, logPrintf (''Failed to delete PNG file: '' @ e)
                                     (s1\<lparr>world := w3,
                                         calls := calls s1 @
                                           [WriteFile (outputPath path extension) jpegBytes,
                                            RemoveAll path]\<rparr>))
                              | (None, w3) \<Rightarrow>
                                  (None,
                                   s1\<lparr>world := w3,
                                      calls := calls s1 @
                                        [WriteFile (outputPath path extension) jpegBytes,
                                         RemoveAll path],
                                      printed := printed s1 @
                                        [''Image conversion successful: '' @
                                         outputPath path extension @ [CHR 0x0A]]\<rparr>)))))
            else (None, s))"

text \<open>
  \<^verbatim>\<open>filepath.Walk\<close> calls the function once for every entry it visits, the root first, and
  reports an entry it cannot examine or a directory it cannot list through \<^verbatim>\<open>err\<close>. The
  function above never returns \<^verbatim>\<open>SkipDir\<close> or \<^verbatim>\<open>SkipAll\<close>, and for such a function
  \<^verbatim>\<open>filepath.Walk\<close> stops at the first call that returns an error and returns that
  error. The entries visited are the list \<open>visits\<close>, each with the \<^verbatim>\<open>info\<close> and
  \<^verbatim>\<open>err\<close> that the library passes.
\<close>

fun Walk ::
  "('w, 'img) sys \<Rightarrow> (string \<times> fileInfo \<times> error option) list \<Rightarrow> 'w process \<Rightarrow>
     error option \<times> 'w process" where
  "Walk sys [] s = (None, s)"
| "Walk sys ((path, info, err) # visits) s =
     (case walkFn sys path info err s of
        (Some e, s') \<Rightarrow> (Some e, s')
      | (None, s') \<Rightarrow> Walk sys visits s')"

text \<open>\<^verbatim>\<open>log.Fatalf\<close> writes its line and ends the process with a failure status.\<close>

datatype exit = Returned | Fatal

definition main ::
  "('w, 'img) sys \<Rightarrow> (string \<times> fileInfo \<times> error option) list \<Rightarrow> 'w process \<Rightarrow>
     exit \<times> 'w process" where
  "main sys visits s =
     (case Walk sys visits s of
        (Some err, s') \<Rightarrow> (Fatal, logPrintf (''Error processing directory: '' @ err) s')
      | (None, s') \<Rightarrow> (Returned, s'))"

subsection \<open>A small system for the examples\<close>

text \<open>
  An instance of \<open>sys\<close> on which the theorems are evaluated: the file system is a list of
  files with their contents, writing fails for the paths in \<open>readOnly\<close>, deleting fails for
  the paths in \<open>locked\<close>, decoding fails on empty content and encoding fails on an image
  of more than three bytes.
\<close>

definition demoSys :: "string list \<Rightarrow> string list \<Rightarrow> ((string \<times> bytes) list, bytes) sys" where
  "demoSys readOnly locked =
     \<lparr>os_ReadFile = (\<lambda>w p. case map_of w p of
                              None \<Rightarrow> Inl ''no such file or directory''
                            | Some b \<Rightarrow> Inr b),
      os_WriteFile = (\<lambda>w p b. if p \<in> set readOnly then (Some ''permission denied'', w)
                               else (None, (p, b) # filter (\<lambda>(q, _). q \<noteq> p) w)),
      os_RemoveAll = (\<lambda>w p. if p \<in> set locked then (Some ''operation not permitted'', w)
                             else (None, filter (\<lambda>(q, _). q \<noteq> p) w)),
      png_Decode = (\<lambda>b. if b = [] then Inl ''unexpected EOF'' else Inr b),
      jpeg_Encode = (\<lambda>img. if length img > 3 then Inl ''image is too large to encode''
                             else Inr img)\<rparr>"

definition demoProcess :: "(string \<times> bytes) list \<Rightarrow> (string \<times> bytes) list process" where
  "demoProcess files = \<lparr>world = files, calls = [], logged = [], printed = []\<rparr>"

definition inRoot :: "string \<Rightarrow> string" where
  "inRoot name = directoryPath @ ''/'' @ name"

definition regular :: fileInfo where
  "regular = \<lparr>IsDir = False\<rparr>"

definition directory :: fileInfo where
  "directory = \<lparr>IsDir = True\<rparr>"

section \<open>Properties of the marker rewriter\<close>

subsection \<open>The loop and its list-recursive form\<close>

lemma loop_step: "fst s < length input \<Longrightarrow> loop input s = loop input (body input s)"
  by (subst loop.simps) simp

lemma loop_stop: "\<not> fst s < length input \<Longrightarrow> loop input s = s"
  by (subst loop.simps) simp

lemma loop_scan:
  "fst s \<le> length input \<Longrightarrow>
   snd (snd (loop input s)) =
     snd (snd s) @ scan (fst s > 0 \<and> input ! (fst s - 1) = CHR ''`'') (fst (snd s))
       (drop (fst s) input)"
proof (induction input s rule: loop.induct)
  case (1 input s)
  obtain i b r where s: "s = (i, b, r)" by (cases s) auto
  show ?case
  proof (cases "i < length input")
    case False
    with 1(2) s show ?thesis by (simp add: loop_stop)
  next
    case True
    then have d: "drop i input = input ! i # drop (Suc i) input"
      by (simp add: Cons_nth_drop_Suc)
    show ?thesis
    proof (cases "Suc i < length input")
      case False
      with True have e: "drop (Suc i) input = []" by simp
      from False have nn: "\<not> i < length input - 1" by arith
      have bd: "body input s = (Suc i, b,
          r @ (if input ! i = CHR ''`'' then
                 (if 0 < i \<and> input ! (i - 1) = CHR ''`'' then (if b then [] else [input ! i])
                  else (if b then [input ! i] else ''**''))
               else [input ! i]))"
        using s nn by (simp add: body_def Let_def)
      have "loop input s = body input s"
        using True False s bd by (simp add: loop_step loop_stop)
      then show ?thesis
        using s d e bd by simp
    next
      case T2: True
      then have d2: "drop (Suc i) input = input ! (Suc i) # drop (Suc (Suc i)) input"
        by (simp add: Cons_nth_drop_Suc)
      from T2 have nn: "i < length input - 1" by arith
      have le: "fst (body input s) \<le> length input"
        using True T2 s by (simp add: body_def Let_def)
      have ih: "snd (snd (loop input (body input s))) =
         snd (snd (body input s)) @
         scan (0 < fst (body input s) \<and> input ! (fst (body input s) - 1) = CHR ''`'')
           (fst (snd (body input s))) (drop (fst (body input s)) input)"
        using 1(1) True s le by simp
      have "loop input s = loop input (body input s)"
        using True s by (simp add: loop_step)
      then show ?thesis
        using ih nn s d d2
        by (auto simp add: body_def Let_def)
    qed
  qed
qed

lemma replace_scan: "replaceInlineCodeWithBold input = scan False False input"
  using loop_scan [of "(0, False, [])" input]
  by (simp add: replaceInlineCodeWithBold_def)

lemma body_single:
  assumes "i < length input" "input ! i = CHR ''`''"
    and "i = 0 \<or> input ! (i - 1) \<noteq> CHR ''`''"
    and "Suc i = length input \<or> input ! Suc i \<noteq> CHR ''`''"
  shows "body input (i, b, r) = (Suc i, b, r @ (if b then ''`'' else ''**''))"
proof -
  have nx: "(i < length input - Suc 0 \<and> input ! Suc i = CHR ''`'') = False"
    using assms(1,4) by auto
  have pv: "(0 < i \<and> input ! (i - Suc 0) = CHR ''`'') = False"
    using assms(3) by auto
  show ?thesis
    using assms(2) by (simp add: body_def Let_def nx pv)
qed

lemma body_boundary:
  assumes "i < length input" "input ! i = CHR ''`''"
    and "(0 < i \<and> input ! (i - 1) = CHR ''`'') \<noteq> (Suc i < length input \<and> input ! Suc i = CHR ''`'')"
  shows "body input (i, b, r) = (Suc i, b, if b then r else r @ ''`'')"
proof -
  have "(i < length input - 1 \<and> input ! (i + 1) = CHR ''`'') = (Suc i < length input \<and> input ! Suc i = CHR ''`'')"
    by auto
  then show ?thesis
    using assms(2,3) by (auto simp add: body_def Let_def)
qed

lemma body_fence:
  assumes "input ! i = CHR ''`''" "0 < i" "input ! (i - 1) = CHR ''`''"
    and "Suc i < length input" "input ! Suc i = CHR ''`''"
  shows "body input (i, b, r) = (i + 2, \<not> b, r @ (if b then ''```'' else ''``''))"
proof -
  have "i < length input - 1" using assms(4) by arith
  then show ?thesis
    using assms by (simp add: body_def)
qed

lemma body_advance: "fst (body input (i, b, r)) = Suc i \<or>
   (fst (body input (i, b, r)) = Suc (Suc i) \<and> input ! i = CHR ''`'' \<and> Suc i < length input \<and> input ! Suc i = CHR ''`'')"
  by (auto simp add: body_def Let_def)

lemma iterate_Suc_end:
  "iterate input (Suc n) s =
     (if fst (iterate input n s) < length input then body input (iterate input n s)
      else iterate input n s)"
proof (induction n arbitrary: s)
  case 0
  show ?case by simp
next
  case (Suc n)
  show ?case
  proof (cases "fst s < length input")
    case True
    then show ?thesis using Suc [of "body input s"] by simp
  next
    case False
    then show ?thesis by simp
  qed
qed

lemma loop_iterate: "loop input (iterate input n s) = loop input s"
proof (induction n arbitrary: s)
  case 0 show ?case by simp
next
  case (Suc n)
  show ?case
  proof (cases "fst s < length input")
    case True
    then show ?thesis using Suc [of "body input s"] by (simp add: loop_step)
  next
    case False then show ?thesis by simp
  qed
qed

lemma reach:
  "i \<le> length input \<Longrightarrow>
   (\<exists>n b r. iterate input n (0, False, []) = (i, b, r)) \<or>
   (0 < i \<and> input ! (i - 1) = CHR ''`'' \<and> i < length input \<and> input ! i = CHR ''`'' \<and>
    (\<exists>n b r. iterate input n (0, False, []) = (Suc i, b, r)))"
proof (induction i)
  case 0
  have "iterate input 0 (0, False, []) = (0, False, [])" by simp
  then show ?case by blast
next
  case (Suc i)
  then have il: "i < length input" by simp
  from Suc have "(\<exists>n b r. iterate input n (0, False, []) = (i, b, r)) \<or>
     (\<exists>n b r. iterate input n (0, False, []) = (Suc i, b, r))" by auto
  then show ?case
  proof
    assume "\<exists>n b r. iterate input n (0, False, []) = (i, b, r)"
    then obtain n b r where n: "iterate input n (0, False, []) = (i, b, r)" by blast
    then have st: "iterate input (Suc n) (0, False, []) = body input (i, b, r)"
      using il by (simp only: iterate_Suc_end) simp
    obtain j b' r' where bd: "body input (i, b, r) = (j, b', r')"
      by (cases "body input (i, b, r)") auto
    from body_advance [of input i b r] bd
    consider "j = Suc i"
      | "j = Suc (Suc i)" "input ! i = CHR ''`''" "Suc i < length input" "input ! Suc i = CHR ''`''"
      by auto
    then show ?thesis
    proof cases
      case 1
      with st bd have "iterate input (Suc n) (0, False, []) = (Suc i, b', r')" by simp
      then show ?thesis by blast
    next
      case 2
      with st bd have "iterate input (Suc n) (0, False, []) = (Suc (Suc i), b', r')" by simp
      then have "\<exists>n b r. iterate input n (0, False, []) = (Suc (Suc i), b, r)" by blast
      with 2 show ?thesis by simp
    qed
  next
    assume "\<exists>n b r. iterate input n (0, False, []) = (Suc i, b, r)"
    then show ?thesis by blast
  qed
qed

lemma reach_unskipped:
  assumes "i < length input" "i = 0 \<or> input ! (i - 1) \<noteq> CHR ''`''"
  shows "\<exists>n b r. iterate input n (0, False, []) = (i, b, r)"
  using reach [of i input] assms by auto

lemma scan_other [simp]: "c \<noteq> CHR ''`'' \<Longrightarrow> scan p b (c # ys) = c # scan False b ys"
  by (cases ys) simp_all

lemma scan_no_backtick: "CHR ''`'' \<notin> set xs \<Longrightarrow> scan p b xs = xs"
  by (induction p b xs rule: scan.induct) auto

lemma scan_other_chars:
  "filter (\<lambda>c. c \<noteq> CHR ''`'' \<and> c \<noteq> CHR ''*'') (scan p b xs) =
   filter (\<lambda>c. c \<noteq> CHR ''`'' \<and> c \<noteq> CHR ''*'') xs"
  by (induction p b xs rule: scan.induct) auto

lemma maxBacktickRun_ge: "k \<le> maxBacktickRun k xs"
  by (induction xs arbitrary: k) (auto intro: Suc_leD le_trans)

lemma run_cases:
  obtains (nil) "xs = []"
  | (other) c ys where "xs = c # ys" "c \<noteq> CHR ''`''"
  | (r1e) "xs = ''`''"
  | (r1) c ys where "xs = CHR ''`'' # c # ys" "c \<noteq> CHR ''`''"
  | (r2e) "xs = ''``''"
  | (r2) c ys where "xs = ''``'' @ c # ys" "c \<noteq> CHR ''`''"
  | (r3e) "xs = ''```''"
  | (r3) c ys where "xs = ''```'' @ c # ys" "c \<noteq> CHR ''`''"
  | (r4e) "xs = ''````''"
  | (r4) c ys where "xs = ''````'' @ c # ys" "c \<noteq> CHR ''`''"
  | (long) ys where "xs = ''`````'' @ ys"
proof (cases xs)
  case Nil then show ?thesis using nil by simp
next
  case (Cons c1 x1)
  show ?thesis
  proof (cases "c1 = CHR ''`''")
    case False then show ?thesis using other Cons by simp
  next
    case t1: True
    show ?thesis
    proof (cases x1)
      case Nil then show ?thesis using r1e Cons t1 by simp
    next
      case c2: (Cons c2 x2)
      show ?thesis
      proof (cases "c2 = CHR ''`''")
        case False then show ?thesis using r1 Cons t1 c2 by simp
      next
        case t2: True
        show ?thesis
        proof (cases x2)
          case Nil then show ?thesis using r2e Cons t1 c2 t2 by simp
        next
          case c3: (Cons c3 x3)
          show ?thesis
          proof (cases "c3 = CHR ''`''")
            case False then show ?thesis using r2 Cons t1 c2 t2 c3 by simp
          next
            case t3: True
            show ?thesis
            proof (cases x3)
              case Nil then show ?thesis using r3e Cons t1 c2 t2 c3 t3 by simp
            next
              case c4: (Cons c4 x4)
              show ?thesis
              proof (cases "c4 = CHR ''`''")
                case False then show ?thesis using r3 Cons t1 c2 t2 c3 t3 c4 by simp
              next
                case t4: True
                show ?thesis
                proof (cases x4)
                  case Nil then show ?thesis using r4e Cons t1 c2 t2 c3 t3 c4 t4 by simp
                next
                  case c5: (Cons c5 x5)
                  show ?thesis
                  proof (cases "c5 = CHR ''`''")
                    case False then show ?thesis using r4 Cons t1 c2 t2 c3 t3 c4 t4 c5 by simp
                  next
                    case True then show ?thesis using long Cons t1 c2 t2 c3 t3 c4 t4 c5 by simp
                  qed
                qed
              qed
            qed
          qed
        qed
      qed
    qed
  qed
qed

lemma scan_backticks_short:
  "maxBacktickRun 0 xs \<le> 4 \<Longrightarrow> backticks (scan False b xs) \<le> backticks xs"
proof (induction xs arbitrary: b rule: length_induct)
  case (1 xs)
  have ih: "\<And>ys b. length ys < length xs \<Longrightarrow> maxBacktickRun 0 ys \<le> 4 \<Longrightarrow>
      backticks (scan False b ys) \<le> backticks ys"
    using 1(1) by blast
  show ?case
  proof (cases xs rule: run_cases)
    case (long ys)
    then have "5 \<le> maxBacktickRun 0 xs"
      using maxBacktickRun_ge [of "Suc (Suc (Suc (Suc (Suc 0))))" ys] by simp
    with 1(2) show ?thesis by simp
  next
    case (other c ys) then show ?thesis using ih [of ys b] 1(2) by (auto simp add: backticks_def)
  next
    case (r1 c ys) then show ?thesis using ih [of ys b] 1(2) by (auto simp add: backticks_def)
  next
    case (r2 c ys) then show ?thesis using ih [of ys b] 1(2) by (auto simp add: backticks_def)
  next
    case (r3 c ys) then show ?thesis using ih [of ys "\<not> b"] 1(2) by (auto simp add: backticks_def)
  next
    case (r4 c ys) then show ?thesis using ih [of ys "\<not> b"] 1(2) by (auto simp add: backticks_def)
  qed (simp_all add: backticks_def)
qed

lemma scan_idem_short:
  "maxBacktickRun 0 xs \<le> 4 \<Longrightarrow> scan False b (scan False b xs) = scan False b xs"
proof (induction xs arbitrary: b rule: length_induct)
  case (1 xs)
  have ih: "\<And>ys b. length ys < length xs \<Longrightarrow> maxBacktickRun 0 ys \<le> 4 \<Longrightarrow>
      scan False b (scan False b ys) = scan False b ys"
    using 1(1) by blast
  show ?case
  proof (cases xs rule: run_cases)
    case (long ys)
    then have "5 \<le> maxBacktickRun 0 xs"
      using maxBacktickRun_ge [of "Suc (Suc (Suc (Suc (Suc 0))))" ys] by simp
    with 1(2) show ?thesis by simp
  next
    case (other c ys) then show ?thesis using ih [of ys b] 1(2) by auto
  next
    case (r1 c ys) then show ?thesis using ih [of ys b] 1(2) by auto
  next
    case (r2 c ys) then show ?thesis using ih [of ys b] 1(2) by auto
  next
    case (r3 c ys) then show ?thesis using ih [of ys "\<not> b"] 1(2) by auto
  next
    case (r4 c ys) then show ?thesis using ih [of ys "\<not> b"] 1(2) by auto
  qed simp_all
qed

lemma scan_backticks_bound: "2 * backticks (scan p b xs) \<le> 3 * backticks xs"
  by (induction p b xs rule: scan.induct) (auto simp: backticks_def)

lemma loop_fence3:
  assumes "i + 2 < length input" "input ! i = CHR ''`''" "input ! (i + 1) = CHR ''`''"
    "input ! (i + 2) = CHR ''`''" "i = 0 \<or> input ! (i - 1) \<noteq> CHR ''`''"
  shows "loop input (i, b, r) = loop input (i + 3, \<not> b, r @ ''```'')"
proof -
  have b1: "body input (i, b, r) = (Suc i, b, if b then r else r @ ''`'')"
    using assms by (intro body_boundary) auto
  have b2: "body input (Suc i, b, r') = (Suc i + 2, \<not> b, r' @ (if b then ''```'' else ''``''))" for r'
    using assms by (intro body_fence) auto
  have "loop input (i, b, r) = loop input (Suc i, b, if b then r else r @ ''`'')"
    using assms(1) b1 loop_step [of "(i, b, r)" input] by simp
  also have "\<dots> = loop input (Suc i + 2, \<not> b, (if b then r else r @ ''`'') @ (if b then ''```'' else ''``''))"
    using assms(1) b2 loop_step [of "(Suc i, b, if b then r else r @ ''`'')" input] by simp
  finally show ?thesis by (cases b) (simp_all add: numeral_3_eq_3)
qed

lemma scan_plain_prefix:
  "CHR ''`'' \<notin> set xs \<Longrightarrow> scan False b (xs @ ys) = xs @ scan False b ys"
proof (induction xs)
  case Nil
  show ?case by simp
next
  case (Cons a xs)
  then have "a \<noteq> CHR ''`''" by auto
  with Cons show ?case by simp
qed

lemma scan_fenced_block:
  assumes "x \<noteq> []" "CHR ''`'' \<notin> set x"
  shows "scan False False (''```'' @ x @ ''```'') = ''```'' @ x @ ''```''"
proof -
  obtain c xs where x: "x = c # xs" using assms(1) by (cases x) auto
  with assms(2) have c: "c \<noteq> CHR ''`''" and xs: "CHR ''`'' \<notin> set xs" by auto
  have "scan False False (''```'' @ x @ ''```'') = ''```'' @ c # scan False True (xs @ ''```'')"
    using c by (simp add: x)
  also have "scan False True (xs @ ''```'') = xs @ scan False True ''```''"
    using xs by (rule scan_plain_prefix)
  also have "scan False True ''```'' = ''```''" by simp
  finally show ?thesis by (simp add: x)
qed

subsection \<open>Text without backticks\<close>

text \<open>
  Claim C7. For every input text that contains no backtick, \<open>replaceInlineCodeWithBold\<close>
  returns the input unchanged.
\<close>

theorem no_backtick_identity:
  "CHR ''`'' \<notin> set input \<Longrightarrow> replaceInlineCodeWithBold input = input"
  by (simp add: replace_scan scan_no_backtick)

theorem no_backtick_identity_witness:
  "CHR ''`'' \<notin> set ''Use **go** keyword'' \<and>
   replaceInlineCodeWithBold ''Use **go** keyword'' = ''Use **go** keyword''"
  using no_backtick_identity [of "''Use **go** keyword''"] by simp

subsection \<open>Bytes other than backtick and asterisk\<close>

text \<open>
  Claim C10. For every input, the bytes other than backtick and asterisk are the same, in
  the same order, in the input and in the output: the transform only inserts, deletes or
  rewrites backticks and asterisks.
\<close>

theorem other_bytes_preserved:
  "filter (\<lambda>c. c \<noteq> CHR ''`'' \<and> c \<noteq> CHR ''*'') (replaceInlineCodeWithBold input) =
   filter (\<lambda>c. c \<noteq> CHR ''`'' \<and> c \<noteq> CHR ''*'') input"
  by (simp add: replace_scan scan_other_chars)

theorem other_bytes_preserved_witness:
  "filter (\<lambda>c. c \<noteq> CHR ''`'' \<and> c \<noteq> CHR ''*'') (replaceInlineCodeWithBold ''a`b*``c'') = ''abc''"
  using other_bytes_preserved [of "''a`b*``c''"] by simp

subsection \<open>A backtick without a neighbouring backtick\<close>

text \<open>
  Claim C6. A backtick with no backtick directly before or after it in the input is reached
  by the loop, in some state \<open>(i, inCodeBlock, result)\<close>; the iteration appends \<open>**\<close> when
  \<open>inCodeBlock\<close> is false and the backtick itself when it is true, leaves the flag as it
  is and goes on at the next byte. In particular the input \<open>`a`\<close> gives \<open>**a**\<close>.
\<close>

theorem lone_backtick:
  assumes "i < length input" and "input ! i = CHR ''`''"
    and "i = 0 \<or> input ! (i - 1) \<noteq> CHR ''`''"
    and "Suc i = length input \<or> input ! Suc i \<noteq> CHR ''`''"
  shows "(\<exists>n inCodeBlock result.
            iterate input n (0, False, []) = (i, inCodeBlock, result) \<and>
            iterate input (Suc n) (0, False, []) =
              (Suc i, inCodeBlock, result @ (if inCodeBlock then ''`'' else ''**'')) \<and>
            replaceInlineCodeWithBold input =
              snd (snd (loop input (Suc i, inCodeBlock, result @ (if inCodeBlock then ''`'' else ''**''))))) \<and>
         (\<forall>inCodeBlock result.
            loop input (i, inCodeBlock, result) =
            loop input (Suc i, inCodeBlock, result @ (if inCodeBlock then ''`'' else ''**''))) \<and>
         replaceInlineCodeWithBold ''`a`'' = ''**a**''"
proof -
  have step: "body input (i, b, r) = (Suc i, b, r @ (if b then ''`'' else ''**''))" for b r
    using assms by (rule body_single)
  obtain n b r where n: "iterate input n (0, False, []) = (i, b, r)"
    using reach_unskipped [OF assms(1,3)] by blast
  have n1: "iterate input (Suc n) (0, False, []) = (Suc i, b, r @ (if b then ''`'' else ''**''))"
    using n assms(1) step by (simp only: iterate_Suc_end) simp
  have "loop input (iterate input (Suc n) (0, False, [])) = loop input (0, False, [])"
    by (rule loop_iterate)
  then have out: "replaceInlineCodeWithBold input =
      snd (snd (loop input (Suc i, b, r @ (if b then ''`'' else ''**''))))"
    using n1 by (simp add: replaceInlineCodeWithBold_def)
  have lp: "loop input (i, b, r) = loop input (Suc i, b, r @ (if b then ''`'' else ''**''))" for b r
    using assms(1) step [of b r] loop_step [of "(i, b, r)" input] by simp
  have ex: "replaceInlineCodeWithBold ''`a`'' = ''**a**''"
    by (simp add: replace_scan)
  have "\<exists>n inCodeBlock result.
            iterate input n (0, False, []) = (i, inCodeBlock, result) \<and>
            iterate input (Suc n) (0, False, []) =
              (Suc i, inCodeBlock, result @ (if inCodeBlock then ''`'' else ''**'')) \<and>
            replaceInlineCodeWithBold input =
              snd (snd (loop input (Suc i, inCodeBlock, result @ (if inCodeBlock then ''`'' else ''**''))))"
    using n n1 out by (intro exI conjI)
  moreover have "\<forall>inCodeBlock result.
            loop input (i, inCodeBlock, result) =
            loop input (Suc i, inCodeBlock, result @ (if inCodeBlock then ''`'' else ''**''))"
    using lp by (intro allI)
  ultimately show ?thesis using ex by (intro conjI)
qed


theorem lone_backtick_witness:
  "(\<exists>n inCodeBlock result.
      iterate ''`a`'' n (0, False, []) = (0, inCodeBlock, result) \<and>
      iterate ''`a`'' (Suc n) (0, False, []) =
        (Suc 0, inCodeBlock, result @ (if inCodeBlock then ''`'' else ''**'')) \<and>
      replaceInlineCodeWithBold ''`a`'' =
        snd (snd (loop ''`a`'' (Suc 0, inCodeBlock, result @ (if inCodeBlock then ''`'' else ''**''))))) \<and>
   (\<forall>inCodeBlock result.
      loop ''`a`'' (0, inCodeBlock, result) =
      loop ''`a`'' (Suc 0, inCodeBlock, result @ (if inCodeBlock then ''`'' else ''**''))) \<and>
   replaceInlineCodeWithBold ''`a`'' = ''**a**''"
proof -
  have h1: "0 < length ''`a`''" by simp
  have h2: "''`a`'' ! 0 = CHR ''`''" by simp
  have h3: "(0::nat) = 0 \<or> ''`a`'' ! (0 - 1) \<noteq> CHR ''`''" by simp
  have h4: "Suc 0 = length ''`a`'' \<or> ''`a`'' ! Suc 0 \<noteq> CHR ''`''" by simp
  show ?thesis by (rule lone_backtick [OF h1 h2 h3 h4])
qed


subsection \<open>Fence delimiters\<close>

text \<open>
  Claim C1, as amended. For the input \<open>```code```\<close> the function returns \<open>```code```\<close>,
  the input itself, and so it does for every text without backticks, not empty, between
  two fences of three backticks. The branch that toggles the mode flag, taken at a backtick
  with a backtick on both sides, writes two backticks when it sets the flag and three when
  it clears it, and skips the following backtick. The first backtick of a fence is handled
  one iteration earlier by the boundary branch, which writes it when the flag is clear and
  drops it when the flag is set: three backticks not preceded by a backtick are emitted as
  three backticks, whether they open or close a fence.
\<close>

theorem fence_delimiter:
  "replaceInlineCodeWithBold ''```code```'' = ''```code```'' \<and>
   (x \<noteq> [] \<and> CHR ''`'' \<notin> set x \<longrightarrow>
      replaceInlineCodeWithBold (''```'' @ x @ ''```'') = ''```'' @ x @ ''```'') \<and>
   (input ! i = CHR ''`'' \<and> 0 < i \<and> input ! (i - 1) = CHR ''`'' \<and>
    Suc i < length input \<and> input ! Suc i = CHR ''`'' \<longrightarrow>
      body input (i, inCodeBlock, result) =
        (i + 2, \<not> inCodeBlock, result @ (if inCodeBlock then ''```'' else ''``''))) \<and>
   (j + 2 < length input \<and> input ! j = CHR ''`'' \<and> input ! (j + 1) = CHR ''`'' \<and>
    input ! (j + 2) = CHR ''`'' \<and> (j = 0 \<or> input ! (j - 1) \<noteq> CHR ''`'') \<longrightarrow>
      loop input (j, inCodeBlock', result') =
        loop input (j + 3, \<not> inCodeBlock', result' @ ''```''))"
proof -
  have "replaceInlineCodeWithBold ''```code```'' = ''```code```''"
    by (simp add: replace_scan)
  moreover have "x \<noteq> [] \<and> CHR ''`'' \<notin> set x \<longrightarrow>
      replaceInlineCodeWithBold (''```'' @ x @ ''```'') = ''```'' @ x @ ''```''"
    using scan_fenced_block [of x] by (simp only: replace_scan) blast
  moreover have "input ! i = CHR ''`'' \<and> 0 < i \<and> input ! (i - 1) = CHR ''`'' \<and>
    Suc i < length input \<and> input ! Suc i = CHR ''`'' \<longrightarrow>
      body input (i, inCodeBlock, result) =
        (i + 2, \<not> inCodeBlock, result @ (if inCodeBlock then ''```'' else ''``''))"
    using body_fence [of input i inCodeBlock result] by blast
  moreover have "j + 2 < length input \<and> input ! j = CHR ''`'' \<and> input ! (j + 1) = CHR ''`'' \<and>
    input ! (j + 2) = CHR ''`'' \<and> (j = 0 \<or> input ! (j - 1) \<noteq> CHR ''`'') \<longrightarrow>
      loop input (j, inCodeBlock', result') =
        loop input (j + 3, \<not> inCodeBlock', result' @ ''```'')"
    using loop_fence3 [of j input inCodeBlock' result'] by blast
  ultimately show ?thesis by (intro conjI)
qed

theorem fence_delimiter_witness:
  "replaceInlineCodeWithBold (''```'' @ ''go'' @ ''```'') = ''```'' @ ''go'' @ ''```'' \<and>
   body ''```code```'' (1, False, ''`'') = (3, True, ''```'') \<and>
   body ''```code```'' (8, True, ''```code'') = (10, False, ''```code```'') \<and>
   loop ''```code```'' (0, False, []) = loop ''```code```'' (3, True, ''```'') \<and>
   loop ''```code```'' (7, True, ''```code'') = loop ''```code```'' (10, False, ''```code```'')"
  using fence_delimiter [of "''go''" "''```code```''" 1 False "''`''" 0 False "[]"]
    fence_delimiter [of "''go''" "''```code```''" 8 True "''```code''" 7 True "''```code''"]
  by simp

theorem fence_asymmetric_counterexample:
  "replaceInlineCodeWithBold ''```code```'' \<noteq> ''``code```''"
  by (simp add: replace_scan)

subsection \<open>Boundary backticks\<close>

text \<open>
  Claim C2, as amended. A backtick that the loop reaches and that has a backtick on exactly
  one side in the input is written unchanged when the mode flag is clear (not inside a
  fence) and is dropped when the mode flag is set (inside a fence); the flag is unchanged
  and the loop goes on at the next byte.
\<close>

theorem boundary_backtick:
  assumes "i < length input" and "input ! i = CHR ''`''"
    and "(0 < i \<and> input ! (i - 1) = CHR ''`'') \<noteq>
         (Suc i < length input \<and> input ! Suc i = CHR ''`'')"
  shows "body input (i, inCodeBlock, result) =
           (Suc i, inCodeBlock, if inCodeBlock then result else result @ ''`'') \<and>
         loop input (i, inCodeBlock, result) =
           loop input (Suc i, inCodeBlock, if inCodeBlock then result else result @ ''`'')"
  using assms body_boundary [OF assms, of inCodeBlock result]
    loop_step [of "(i, inCodeBlock, result)" input]
  by simp

theorem boundary_backtick_witness:
  "body ''a``b'' (1, False, ''a'') = (2, False, ''a`'') \<and>
   loop ''a``b'' (1, False, ''a'') = loop ''a``b'' (2, False, ''a`'') \<and>
   body ''```a``b```'' (4, True, ''```a'') = (5, True, ''```a'') \<and>
   loop ''```a``b```'' (4, True, ''```a'') = loop ''```a``b```'' (5, True, ''```a'')"
  using boundary_backtick [of 1 "''a``b''" False "''a''"]
    boundary_backtick [of 4 "''```a``b```''" True "''```a''"]
  by (simp add: numeral_2_eq_2)

theorem boundary_backtick_counterexample:
  "iterate ''a``b'' 1 (0, False, []) = (1, False, ''a'') \<and>
   iterate ''a``b'' 2 (0, False, []) \<noteq> (2, False, ''a'') \<and>
   replaceInlineCodeWithBold ''a``b'' \<noteq> ''ab'' \<and>
   iterate ''```a``b```'' 3 (0, False, []) = (4, True, ''```a'') \<and>
   iterate ''```a``b```'' 4 (0, False, []) \<noteq> (5, True, ''```a`'') \<and>
   replaceInlineCodeWithBold ''```a``b```'' \<noteq> ''```a``b```''"
  by (simp add: replace_scan body_def eval_nat_numeral)

subsection \<open>The number of backticks\<close>

text \<open>
  Claim C3, as amended. For every input text in which no run of consecutive backticks is
  longer than four, the output has at most as many backticks as the input; for every input
  text, twice the number of backticks of the output is at most three times the number of
  backticks of the input.
\<close>

theorem backtick_count:
  "(maxBacktickRun 0 input \<le> 4 \<longrightarrow>
      backticks (replaceInlineCodeWithBold input) \<le> backticks input) \<and>
   2 * backticks (replaceInlineCodeWithBold input) \<le> 3 * backticks input"
  by (simp add: replace_scan scan_backticks_short scan_backticks_bound)

theorem backtick_count_witness:
  "maxBacktickRun 0 ''```go`x` ``y``'' \<le> 4 \<and>
   backticks (replaceInlineCodeWithBold ''```go`x` ``y``'') \<le> backticks ''```go`x` ``y``'' \<and>
   2 * backticks (replaceInlineCodeWithBold ''```go`x` ``y``'') \<le> 3 * backticks ''```go`x` ``y``''"
  using backtick_count [of "''```go`x` ``y``''"] by simp

theorem backtick_count_counterexample:
  "\<not> backticks (replaceInlineCodeWithBold ''`````'') \<le> backticks ''`````''"
  by (simp add: replace_scan backticks_def)

subsection \<open>Applying the transform twice\<close>

text \<open>
  Claim C4, as amended. For every input text in which no run of consecutive backticks is
  longer than four, applying \<open>replaceInlineCodeWithBold\<close> twice gives the same text as
  applying it once.
\<close>

theorem twice_equals_once:
  "maxBacktickRun 0 input \<le> 4 \<Longrightarrow>
   replaceInlineCodeWithBold (replaceInlineCodeWithBold input) = replaceInlineCodeWithBold input"
  by (simp add: replace_scan scan_idem_short)

theorem twice_equals_once_witness:
  "maxBacktickRun 0 ''a `b` ````c``'' \<le> 4 \<and>
   replaceInlineCodeWithBold (replaceInlineCodeWithBold ''a `b` ````c``'') =
   replaceInlineCodeWithBold ''a `b` ````c``''"
  using twice_equals_once [of "''a `b` ````c``''"] by simp

theorem twice_equals_once_counterexample:
  "replaceInlineCodeWithBold (replaceInlineCodeWithBold ''`````'') \<noteq>
   replaceInlineCodeWithBold ''`````''"
  by (simp add: replace_scan)


section \<open>Properties of the walker\<close>

subsection \<open>Paths, single calls and the walk\<close>

lemma dropWhile_head: "xs = c # v \<Longrightarrow> \<not> P c \<Longrightarrow> dropWhile P xs = xs"
  by simp

lemma Ext_png_Base:
  assumes "Ext path = ''.png''"
  shows "\<exists>stem. Base path = stem @ ''.png''"
proof -
  define t where "t = takeWhile (\<lambda>c. c \<noteq> CHR ''/'') (rev path)"
  have dot: "CHR ''.'' \<in> set t"
    using assms by (auto simp: Ext_def t_def Let_def split: if_splits)
  then have "CHR ''.'' # rev (takeWhile (\<lambda>c. c \<noteq> CHR ''.'') t) = ''.png''"
    using assms by (simp add: Ext_def t_def Let_def)
  then have "rev (rev (takeWhile (\<lambda>c. c \<noteq> CHR ''.'') t)) = rev ''png''" by simp
  then have tw: "takeWhile (\<lambda>c. c \<noteq> CHR ''.'') t = ''gnp''" by simp
  from dot have dn: "dropWhile (\<lambda>c. c \<noteq> CHR ''.'') t \<noteq> []" by simp
  then obtain u where u: "dropWhile (\<lambda>c. c \<noteq> CHR ''.'') t = CHR ''.'' # u"
    using hd_dropWhile [of "\<lambda>c. c \<noteq> CHR ''.''" t] by (cases "dropWhile (\<lambda>c. c \<noteq> CHR ''.'') t") auto
  have "t = takeWhile (\<lambda>c. c \<noteq> CHR ''.'') t @ dropWhile (\<lambda>c. c \<noteq> CHR ''.'') t" by simp
  then have t: "t = ''gnp.'' @ u" using tw u by simp
  have rp: "rev path = t @ dropWhile (\<lambda>c. c \<noteq> CHR ''/'') (rev path)"
    by (simp add: t_def)
  have rp': "rev path = CHR ''g'' # (''np.'' @ u @ dropWhile (\<lambda>c. c \<noteq> CHR ''/'') (rev path))"
    by (subst rp, subst t) simp
  have ne: "path \<noteq> []"
  proof
    assume "path = []"
    with rp' show False by simp
  qed
  have dw: "dropWhile (\<lambda>c. c = CHR ''/'') (rev path) = rev path"
    by (rule dropWhile_head [OF rp']) simp
  have "Base path = rev t"
    using ne t by (simp add: Base_def Let_def dw t_def [symmetric])
  then show ?thesis using t by simp
qed

lemma Base_in_dir:
  assumes "CHR ''/'' \<notin> set name" "name \<noteq> []"
  shows "Base (dir @ ''/'' @ name) = name"
proof -
  define p where "p = dir @ ''/'' @ name"
  obtain c v where cv: "rev name = c # v" using assms(2) by (cases "rev name") auto
  then have c: "c \<noteq> CHR ''/''" using assms(1) by (metis list.set_intros(1) set_rev)
  have r: "rev p = c # (v @ ''/'' @ rev dir)" using cv by (simp add: p_def)
  have ne: "p \<noteq> []" by (simp add: p_def)
  have dw: "dropWhile (\<lambda>c. c = CHR ''/'') (rev p) = rev p"
    by (rule dropWhile_head [OF r]) (simp add: c)
  have tw: "takeWhile (\<lambda>c. c \<noteq> CHR ''/'') (rev p) = rev name"
    using assms(1) by (simp add: p_def takeWhile_append)
  have "Base p = name"
    using assms(2) ne by (simp add: Base_def Let_def dw tw)
  then show ?thesis by (simp add: p_def)
qed

lemma Ext_png_suffix:
  assumes "Ext path = ''.png''"
  shows "\<exists>pre. path = pre @ ''.png''"
proof -
  define t where "t = takeWhile (\<lambda>c. c \<noteq> CHR ''/'') (rev path)"
  have dot: "CHR ''.'' \<in> set t"
    using assms by (auto simp: Ext_def t_def Let_def split: if_splits)
  then have "CHR ''.'' # rev (takeWhile (\<lambda>c. c \<noteq> CHR ''.'') t) = ''.png''"
    using assms by (simp add: Ext_def t_def Let_def)
  then have "rev (rev (takeWhile (\<lambda>c. c \<noteq> CHR ''.'') t)) = rev ''png''" by simp
  then have tw: "takeWhile (\<lambda>c. c \<noteq> CHR ''.'') t = ''gnp''" by simp
  from dot have dn: "dropWhile (\<lambda>c. c \<noteq> CHR ''.'') t \<noteq> []" by simp
  then obtain u where u: "dropWhile (\<lambda>c. c \<noteq> CHR ''.'') t = CHR ''.'' # u"
    using hd_dropWhile [of "\<lambda>c. c \<noteq> CHR ''.''" t]
    by (cases "dropWhile (\<lambda>c. c \<noteq> CHR ''.'') t") auto
  have "t = takeWhile (\<lambda>c. c \<noteq> CHR ''.'') t @ dropWhile (\<lambda>c. c \<noteq> CHR ''.'') t" by simp
  then have t: "t = ''gnp.'' @ u" using tw u by simp
  define d where "d = dropWhile (\<lambda>c. c \<noteq> CHR ''/'') (rev path)"
  have "rev path = t @ d"
    by (simp add: t_def d_def)
  then have "rev (rev path) = rev (t @ d)"
    by (rule arg_cong)
  then have "path = (rev d @ rev u) @ ''.png''"
    by (simp add: t)
  then show ?thesis by (rule exI)
qed

lemma outputPath_differs:
  assumes "Ext path = ''.png''"
  shows "outputPath path ''.png'' \<noteq> path"
proof
  assume eq: "outputPath path ''.png'' = path"
  obtain pre where pre: "path = pre @ ''.png''" using Ext_png_suffix [OF assms] by blast
  obtain q where q: "outputPath path ''.png'' = q @ ''.jpg''"
    by (simp add: outputPath_def Join_def Let_def)
  from eq pre q have "q @ ''.jpg'' = pre @ ''.png''" by simp
  then show False by simp
qed

lemma Ext_trailing_slash: "Ext (dir @ ''/'') = []"
  by (simp add: Ext_def)

lemma outputPath_stem:
  assumes "Base path = stem @ ''.png''"
  shows "outputPath path ''.png'' = directoryPath @ ''/'' @ stem @ ''.jpg''"
  using assms by (simp add: outputPath_def Join_def Let_def)

lemma walkFn_nil: "fst (walkFn sys path info None s) = None"
  by (simp add: walkFn_def Let_def split: sum.splits prod.splits option.splits)

lemma walkFn_err: "walkFn sys path info (Some e) s = (Some e, s)"
  by (simp add: walkFn_def)

lemma Walk_continue:
  "Walk sys ((path, info, None) # visits) s = Walk sys visits (snd (walkFn sys path info None s))"
  using walkFn_nil [of sys path info s]
  by (cases "walkFn sys path info None s") simp

lemma Walk_abort: "Walk sys ((path, info, Some e) # visits) s = (Some e, s)"
  by (simp add: walkFn_err)

lemma Walk_append:
  "fst (Walk sys before s) = None \<Longrightarrow>
   Walk sys (before @ rest) s = Walk sys rest (snd (Walk sys before s))"
proof (induction before arbitrary: s)
  case Nil
  show ?case by simp
next
  case (Cons v before)
  obtain path info err where v: "v = (path, info, err)" by (cases v) auto
  obtain r s' where w: "walkFn sys path info err s = (r, s')" by (cases "walkFn sys path info err s") auto
  show ?case
  proof (cases r)
    case None
    with Cons v w show ?thesis by simp
  next
    case (Some e)
    with Cons.prems v w show ?thesis by simp
  qed
qed

lemma Walk_no_traversal_error:
  "\<forall>v \<in> set visits. snd (snd v) = None \<Longrightarrow> fst (Walk sys visits s) = None"
proof (induction visits arbitrary: s)
  case Nil
  show ?case by simp
next
  case (Cons v visits)
  obtain path info err where v: "v = (path, info, err)" by (cases v) auto
  with Cons.prems have e: "err = None" by simp
  have "fst (Walk sys visits (snd (walkFn sys path info None s))) = None"
    using Cons by simp
  then show ?case using v e by (simp only: Walk_continue)
qed

lemma walkFn_read_fails:
  assumes "\<not> IsDir info" "Ext path = ''.png''" "os_ReadFile sys (world s) path = Inl e"
  shows "snd (walkFn sys path info None s) =
     s\<lparr>calls := calls s @ [ReadFile path],
       logged := logged s @ [''Failed to read image file: '' @ e]\<rparr>"
  using assms by (simp add: walkFn_def logPrintf_def Let_def)

lemma walkFn_convert_fails:
  assumes "\<not> IsDir info" "Ext path = ''.png''" "os_ReadFile sys (world s) path = Inr imageBytes"
    "ToJpeg sys imageBytes = Inl e"
  shows "snd (walkFn sys path info None s) =
     s\<lparr>calls := calls s @ [ReadFile path],
       logged := logged s @ [''Failed to convert image: '' @ e]\<rparr>"
  using assms by (simp add: walkFn_def logPrintf_def Let_def)

lemma walkFn_write_fails:
  assumes "\<not> IsDir info" "Ext path = ''.png''" "os_ReadFile sys (world s) path = Inr imageBytes"
    "ToJpeg sys imageBytes = Inr jpegBytes"
    "os_WriteFile sys (world s) (outputPath path ''.png'') jpegBytes = (Some e, w)"
  shows "snd (walkFn sys path info None s) =
     s\<lparr>world := w,
       calls := calls s @ [ReadFile path, WriteFile (outputPath path ''.png'') jpegBytes],
       logged := logged s @ [''Failed to write JPEG file: '' @ e]\<rparr>"
  using assms by (simp add: walkFn_def logPrintf_def Let_def)

lemma walkFn_delete_fails:
  assumes "\<not> IsDir info" "Ext path = ''.png''" "os_ReadFile sys (world s) path = Inr imageBytes"
    "ToJpeg sys imageBytes = Inr jpegBytes"
    "os_WriteFile sys (world s) (outputPath path ''.png'') jpegBytes = (None, w)"
    "os_RemoveAll sys w path = (Some e, w')"
  shows "snd (walkFn sys path info None s) =
     s\<lparr>world := w',
       calls := calls s @ [ReadFile path, WriteFile (outputPath path ''.png'') jpegBytes, RemoveAll path],
       logged := logged s @ [''Failed to delete PNG file: '' @ e]\<rparr>"
  using assms by (simp add: walkFn_def logPrintf_def Let_def)

lemma walkFn_written:
  assumes "\<not> IsDir info" "Ext path = ''.png''" "os_ReadFile sys (world s) path = Inr imageBytes"
    "ToJpeg sys imageBytes = Inr jpegBytes"
    "os_WriteFile sys (world s) (outputPath path ''.png'') jpegBytes = (None, w)"
  shows "calls (snd (walkFn sys path info None s)) =
           calls s @ [ReadFile path, WriteFile (outputPath path ''.png'') jpegBytes, RemoveAll path] \<and>
         world (snd (walkFn sys path info None s)) = snd (os_RemoveAll sys w path)"
proof -
  obtain r w' where rm: "os_RemoveAll sys w path = (r, w')"
    by (cases "os_RemoveAll sys w path") auto
  show ?thesis
  proof (cases r)
    case None
    with assms rm show ?thesis by (simp add: walkFn_def logPrintf_def Let_def)
  next
    case (Some e)
    with assms rm show ?thesis by (simp add: walkFn_def logPrintf_def Let_def)
  qed
qed

lemma ToJpeg_decode_fails: "png_Decode sys imageBytes = Inl e \<Longrightarrow> ToJpeg sys imageBytes = Inl e"
  by (simp add: ToJpeg_def)

lemma ToJpeg_encode_fails:
  "png_Decode sys imageBytes = Inr img \<Longrightarrow> jpeg_Encode sys img = Inl e \<Longrightarrow>
   ToJpeg sys imageBytes = Inl e"
  by (simp add: ToJpeg_def)

lemma walkFn_calls_written:
  assumes "\<not> IsDir info" "Ext path = ''.png''" "os_ReadFile sys (world s) path = Inr imageBytes"
    "ToJpeg sys imageBytes = Inr jpegBytes"
  shows "\<exists>rest. calls (snd (walkFn sys path info None s)) =
           calls s @ ReadFile path # WriteFile (outputPath path ''.png'') jpegBytes # rest \<and>
           (rest = [] \<or> rest = [RemoveAll path])"
proof -
  obtain r w where wr: "os_WriteFile sys (world s) (outputPath path ''.png'') jpegBytes = (r, w)"
    by (cases "os_WriteFile sys (world s) (outputPath path ''.png'') jpegBytes") auto
  show ?thesis
  proof (cases r)
    case None
    with wr walkFn_written [OF assms, of w] show ?thesis by simp
  next
    case (Some e)
    with wr walkFn_write_fails [OF assms, of e w] show ?thesis by simp
  qed
qed

lemma Ext_in_dir:
  assumes "CHR ''/'' \<notin> set name"
  shows "Ext (dir @ ''/'' @ name) =
    (if CHR ''.'' \<in> set name then CHR ''.'' # rev (takeWhile (\<lambda>c. c \<noteq> CHR ''.'') (rev name))
     else [])"
proof -
  have "takeWhile (\<lambda>c. c \<noteq> CHR ''/'') (rev (dir @ ''/'' @ name)) = rev name"
    using assms by (simp add: takeWhile_append)
  then show ?thesis by (simp only: Ext_def Let_def set_rev)
qed

lemma Ext_inRoot:
  "CHR ''/'' \<notin> set name \<Longrightarrow>
   Ext (inRoot name) =
    (if CHR ''.'' \<in> set name then CHR ''.'' # rev (takeWhile (\<lambda>c. c \<noteq> CHR ''.'') (rev name))
     else [])"
  unfolding inRoot_def by (rule Ext_in_dir)

lemma Base_inRoot: "CHR ''/'' \<notin> set name \<Longrightarrow> name \<noteq> [] \<Longrightarrow> Base (inRoot name) = name"
  unfolding inRoot_def by (rule Base_in_dir)

lemma Join_directoryPath: "Join directoryPath name = inRoot name"
  by (simp add: Join_def inRoot_def)

lemma inRoot_inject: "(inRoot a = inRoot b) = (a = b)"
  by (simp add: inRoot_def)

lemmas demo_defs = walkFn_def outputPath_def Join_directoryPath Ext_inRoot Base_inRoot
  inRoot_inject demoSys_def demoProcess_def ToJpeg_def Let_def logPrintf_def
  regular_def directory_def

lemmas path_defs = walkFn_def outputPath_def Join_def Ext_def Base_def inRoot_def
  directoryPath_def demoSys_def demoProcess_def ToJpeg_def Let_def logPrintf_def
  regular_def directory_def

subsection \<open>Where the JPEG file is written\<close>

text \<open>
  Claim C5, as amended. For every regular file that the walker visits, whose extension is
  exactly \<open>.png\<close> and whose content is read and converted, the walker writes the JPEG
  bytes to the path made of the root directory \<open>directoryPath\<close>, a separator, and the
  base name of the file with \<open>.png\<close> replaced by \<open>.jpg\<close>. For a file directly in the root
  directory this is the path beside the original; for a file in a subdirectory it is a
  path in the root directory.
\<close>

theorem output_path:
  assumes "\<not> IsDir info" and "Ext path = ''.png''"
    and "os_ReadFile sys (world s) path = Inr imageBytes"
    and "ToJpeg sys imageBytes = Inr jpegBytes"
  shows "\<exists>stem rest.
           Base path = stem @ ''.png'' \<and>
           calls (snd (walkFn sys path info None s)) =
             calls s @ ReadFile path #
               WriteFile (directoryPath @ ''/'' @ stem @ ''.jpg'') jpegBytes # rest \<and>
           (rest = [] \<or> rest = [RemoveAll path]) \<and>
           (\<forall>name. path = directoryPath @ ''/'' @ name \<and> CHR ''/'' \<notin> set name \<longrightarrow>
                   name = stem @ ''.png'')"
proof -
  obtain stem where stem: "Base path = stem @ ''.png''"
    using Ext_png_Base [OF assms(2)] by blast
  obtain rest where rest: "calls (snd (walkFn sys path info None s)) =
      calls s @ ReadFile path # WriteFile (outputPath path ''.png'') jpegBytes # rest"
      "rest = [] \<or> rest = [RemoveAll path]"
    using walkFn_calls_written [OF assms] by blast
  have sib: "name = stem @ ''.png''"
    if "path = directoryPath @ ''/'' @ name \<and> CHR ''/'' \<notin> set name" for name
  proof -
    have "name \<noteq> []"
    proof
      assume "name = []"
      with that have "Ext path = []" using Ext_trailing_slash [of directoryPath] by simp
      with assms(2) show False by simp
    qed
    with that have "Base path = name" using Base_in_dir [of name directoryPath] by simp
    with stem show ?thesis by simp
  qed
  from stem rest sib show ?thesis
    by (simp only: outputPath_stem [OF stem]) blast
qed

theorem output_path_witness:
  "Ext (inRoot ''a.png'') = ''.png'' \<and>
   calls (snd (walkFn (demoSys [] []) (inRoot ''a.png'') regular None
                 (demoProcess [(inRoot ''a.png'', [1, 2, 3])]))) =
     [ReadFile (inRoot ''a.png''), WriteFile (inRoot ''a.jpg'') [1, 2, 3],
      RemoveAll (inRoot ''a.png'')]"
proof -
  have h1: "\<not> IsDir regular" by (simp add: regular_def)
  have h2: "Ext (inRoot ''a.png'') = ''.png''" by (simp add: Ext_inRoot)
  have h3: "os_ReadFile (demoSys [] []) (world (demoProcess [(inRoot ''a.png'', [1, 2, 3])]))
      (inRoot ''a.png'') = Inr [1, 2, 3]"
    by (simp add: demoSys_def demoProcess_def)
  have h4: "ToJpeg (demoSys [] []) [1, 2, 3] = Inr [1, 2, 3]"
    by (simp add: ToJpeg_def demoSys_def)
  obtain stem rest where
    sib: "\<forall>name. inRoot ''a.png'' = directoryPath @ ''/'' @ name \<and> CHR ''/'' \<notin> set name \<longrightarrow>
            name = stem @ ''.png''"
    and cs: "calls (snd (walkFn (demoSys [] []) (inRoot ''a.png'') regular None
                (demoProcess [(inRoot ''a.png'', [1, 2, 3])]))) =
       calls (demoProcess [(inRoot ''a.png'', [1, 2, 3])]) @ ReadFile (inRoot ''a.png'') #
         WriteFile (directoryPath @ ''/'' @ stem @ ''.jpg'') [1, 2, 3] # rest"
    and rest: "rest = [] \<or> rest = [RemoveAll (inRoot ''a.png'')]"
    using output_path [OF h1 h2 h3 h4] by blast
  from sib have "''a.png'' = stem @ ''.png''" by (simp add: inRoot_def)
  then have stem: "stem = ''a''" by simp
  have "RemoveAll (inRoot ''a.png'') \<in>
      set (calls (snd (walkFn (demoSys [] []) (inRoot ''a.png'') regular None
                (demoProcess [(inRoot ''a.png'', [1, 2, 3])]))))"
    by (simp add: demo_defs)
  with cs rest have "rest = [RemoveAll (inRoot ''a.png'')]"
    by (auto simp add: demoProcess_def)
  with cs stem h2 show ?thesis by (simp add: demoProcess_def inRoot_def)
qed

theorem sibling_path_counterexample:
  "Ext (inRoot ''sub/a.png'') = ''.png'' \<and>
   calls (snd (walkFn (demoSys [] []) (inRoot ''sub/a.png'') regular None
                 (demoProcess [(inRoot ''sub/a.png'', [1, 2, 3])]))) =
     [ReadFile ''/Users/chukwuemeriwoukeje/Downloads/sub/a.png'',
      WriteFile ''/Users/chukwuemeriwoukeje/Downloads/a.jpg'' [1, 2, 3],
      RemoveAll ''/Users/chukwuemeriwoukeje/Downloads/sub/a.png''] \<and>
   WriteFile ''/Users/chukwuemeriwoukeje/Downloads/sub/a.jpg'' [1, 2, 3] \<notin>
     set (calls (snd (walkFn (demoSys [] []) (inRoot ''sub/a.png'') regular None
                        (demoProcess [(inRoot ''sub/a.png'', [1, 2, 3])]))))"
  by (simp add: path_defs)

subsection \<open>Failures on one file and failures of the traversal\<close>

text \<open>
  Claim C8. The function passed to the walk returns no error when it is called without a
  traversal error, so the walk goes on with the next entry. When reading the file,
  decoding the PNG, encoding the JPEG, writing the JPEG or deleting the original fails,
  exactly one line is logged for the file and nothing more is done with it. When the
  walk reports a traversal error, the function returns it, the walk ends there without
  visiting the remaining entries, and \<open>main\<close> logs it and ends fatally. A walk without
  traversal error runs to its end and \<open>main\<close> returns, whatever failed on single files.
\<close>

theorem walker_errors:
  "fst (walkFn sys path info None s) = None \<and>
   Walk sys ((path, info, None) # visits) s =
     Walk sys visits (snd (walkFn sys path info None s)) \<and>
   (\<not> IsDir info \<and> Ext path = ''.png'' \<longrightarrow>
      (os_ReadFile sys (world s) path = Inl e \<longrightarrow>
         snd (walkFn sys path info None s) =
           s\<lparr>calls := calls s @ [ReadFile path],
             logged := logged s @ [''Failed to read image file: '' @ e]\<rparr>) \<and>
      (os_ReadFile sys (world s) path = Inr imageBytes \<and> png_Decode sys imageBytes = Inl e \<longrightarrow>
         snd (walkFn sys path info None s) =
           s\<lparr>calls := calls s @ [ReadFile path],
             logged := logged s @ [''Failed to convert image: '' @ e]\<rparr>) \<and>
      (os_ReadFile sys (world s) path = Inr imageBytes \<and> png_Decode sys imageBytes = Inr img \<and>
       jpeg_Encode sys img = Inl e \<longrightarrow>
         snd (walkFn sys path info None s) =
           s\<lparr>calls := calls s @ [ReadFile path],
             logged := logged s @ [''Failed to convert image: '' @ e]\<rparr>) \<and>
      (os_ReadFile sys (world s) path = Inr imageBytes \<and> ToJpeg sys imageBytes = Inr jpegBytes \<and>
       os_WriteFile sys (world s) (outputPath path ''.png'') jpegBytes = (Some e, w) \<longrightarrow>
         snd (walkFn sys path info None s) =
           s\<lparr>world := w,
             calls := calls s @ [ReadFile path, WriteFile (outputPath path ''.png'') jpegBytes],
             logged := logged s @ [''Failed to write JPEG file: '' @ e]\<rparr>) \<and>
      (os_ReadFile sys (world s) path = Inr imageBytes \<and> ToJpeg sys imageBytes = Inr jpegBytes \<and>
       os_WriteFile sys (world s) (outputPath path ''.png'') jpegBytes = (None, w) \<and>
       os_RemoveAll sys w path = (Some e, w') \<longrightarrow>
         snd (walkFn sys path info None s) =
           s\<lparr>world := w',
             calls := calls s @
               [ReadFile path, WriteFile (outputPath path ''.png'') jpegBytes, RemoveAll path],
             logged := logged s @ [''Failed to delete PNG file: '' @ e]\<rparr>)) \<and>
   Walk sys ((path, info, Some e) # visits) s = (Some e, s) \<and>
   ((\<forall>v \<in> set before. snd (snd v) = None) \<longrightarrow>
      Walk sys (before @ (path, info, Some e) # visits) s = (Some e, snd (Walk sys before s)) \<and>
      main sys (before @ (path, info, Some e) # visits) s =
        (Fatal, logPrintf (''Error processing directory: '' @ e) (snd (Walk sys before s)))) \<and>
   ((\<forall>v \<in> set visits. snd (snd v) = None) \<longrightarrow>
      fst (Walk sys visits s) = None \<and> fst (main sys visits s) = Returned)"
proof -
  have a: "fst (walkFn sys path info None s) = None" by (rule walkFn_nil)
  have b: "Walk sys ((path, info, None) # visits) s =
      Walk sys visits (snd (walkFn sys path info None s))" by (rule Walk_continue)
  have c: "\<not> IsDir info \<and> Ext path = ''.png'' \<longrightarrow>
      (os_ReadFile sys (world s) path = Inl e \<longrightarrow>
         snd (walkFn sys path info None s) =
           s\<lparr>calls := calls s @ [ReadFile path],
             logged := logged s @ [''Failed to read image file: '' @ e]\<rparr>) \<and>
      (os_ReadFile sys (world s) path = Inr imageBytes \<and> png_Decode sys imageBytes = Inl e \<longrightarrow>
         snd (walkFn sys path info None s) =
           s\<lparr>calls := calls s @ [ReadFile path],
             logged := logged s @ [''Failed to convert image: '' @ e]\<rparr>) \<and>
      (os_ReadFile sys (world s) path = Inr imageBytes \<and> png_Decode sys imageBytes = Inr img \<and>
       jpeg_Encode sys img = Inl e \<longrightarrow>
         snd (walkFn sys path info None s) =
           s\<lparr>calls := calls s @ [ReadFile path],
             logged := logged s @ [''Failed to convert image: '' @ e]\<rparr>) \<and>
      (os_ReadFile sys (world s) path = Inr imageBytes \<and> ToJpeg sys imageBytes = Inr jpegBytes \<and>
       os_WriteFile sys (world s) (outputPath path ''.png'') jpegBytes = (Some e, w) \<longrightarrow>
         snd (walkFn sys path info None s) =
           s\<lparr>world := w,
             calls := calls s @ [ReadFile path, WriteFile (outputPath path ''.png'') jpegBytes],
             logged := logged s @ [''Failed to write JPEG file: '' @ e]\<rparr>) \<and>
      (os_ReadFile sys (world s) path = Inr imageBytes \<and> ToJpeg sys imageBytes = Inr jpegBytes \<and>
       os_WriteFile sys (world s) (outputPath path ''.png'') jpegBytes = (None, w) \<and>
       os_RemoveAll sys w path = (Some e, w') \<longrightarrow>
         snd (walkFn sys path info None s) =
           s\<lparr>world := w',
             calls := calls s @
               [ReadFile path, WriteFile (outputPath path ''.png'') jpegBytes, RemoveAll path],
             logged := logged s @ [''Failed to delete PNG file: '' @ e]\<rparr>)"
    by (intro impI conjI; elim conjE)
       (erule (2) walkFn_read_fails,
        erule (2) walkFn_convert_fails, erule ToJpeg_decode_fails,
        erule (2) walkFn_convert_fails, erule (1) ToJpeg_encode_fails,
        erule (4) walkFn_write_fails,
        erule (5) walkFn_delete_fails)
  have d: "Walk sys ((path, info, Some e) # visits) s = (Some e, s)" by (rule Walk_abort)
  have f: "(\<forall>v \<in> set before. snd (snd v) = None) \<longrightarrow>
      Walk sys (before @ (path, info, Some e) # visits) s = (Some e, snd (Walk sys before s)) \<and>
      main sys (before @ (path, info, Some e) # visits) s =
        (Fatal, logPrintf (''Error processing directory: '' @ e) (snd (Walk sys before s)))"
  proof
    assume "\<forall>v \<in> set before. snd (snd v) = None"
    then have "fst (Walk sys before s) = None" by (rule Walk_no_traversal_error)
    then have "Walk sys (before @ (path, info, Some e) # visits) s =
        (Some e, snd (Walk sys before s))"
      by (simp only: Walk_append Walk_abort)
    then show "Walk sys (before @ (path, info, Some e) # visits) s = (Some e, snd (Walk sys before s)) \<and>
      main sys (before @ (path, info, Some e) # visits) s =
        (Fatal, logPrintf (''Error processing directory: '' @ e) (snd (Walk sys before s)))"
      by (simp add: main_def)
  qed
  have g: "(\<forall>v \<in> set visits. snd (snd v) = None) \<longrightarrow>
      fst (Walk sys visits s) = None \<and> fst (main sys visits s) = Returned"
  proof
    assume "\<forall>v \<in> set visits. snd (snd v) = None"
    then have "fst (Walk sys visits s) = None" by (rule Walk_no_traversal_error)
    then show "fst (Walk sys visits s) = None \<and> fst (main sys visits s) = Returned"
      by (cases "Walk sys visits s") (simp add: main_def)
  qed
  from a b c d f g show ?thesis by (intro conjI)
qed

theorem walker_errors_witness:
  "logged (snd (walkFn (demoSys [] []) (inRoot ''a.png'') regular None (demoProcess []))) =
     [''Failed to read image file: no such file or directory''] \<and>
   logged (snd (walkFn (demoSys [] []) (inRoot ''b.png'') regular None
                  (demoProcess [(inRoot ''b.png'', [])]))) =
     [''Failed to convert image: unexpected EOF''] \<and>
   logged (snd (walkFn (demoSys [] []) (inRoot ''c.png'') regular None
                  (demoProcess [(inRoot ''c.png'', [1, 2, 3, 4])]))) =
     [''Failed to convert image: image is too large to encode''] \<and>
   logged (snd (walkFn (demoSys [inRoot ''d.jpg''] []) (inRoot ''d.png'') regular None
                  (demoProcess [(inRoot ''d.png'', [1])]))) =
     [''Failed to write JPEG file: permission denied''] \<and>
   logged (snd (walkFn (demoSys [] [inRoot ''e.png'']) (inRoot ''e.png'') regular None
                  (demoProcess [(inRoot ''e.png'', [1])]))) =
     [''Failed to delete PNG file: operation not permitted''] \<and>
   fst (main (demoSys [] [])
          ([(directoryPath, directory, None), (inRoot ''a.png'', regular, None),
            (inRoot ''f.png'', regular, None)] @
           (inRoot ''sub'', directory, Some ''permission denied'') #
           [(inRoot ''z.png'', regular, None)])
          (demoProcess [(inRoot ''f.png'', [1]), (inRoot ''z.png'', [2])])) = Fatal \<and>
   snd (main (demoSys [] [])
          ([(directoryPath, directory, None), (inRoot ''a.png'', regular, None),
            (inRoot ''f.png'', regular, None)] @
           (inRoot ''sub'', directory, Some ''permission denied'') #
           [(inRoot ''z.png'', regular, None)])
          (demoProcess [(inRoot ''f.png'', [1]), (inRoot ''z.png'', [2])])) =
     \<lparr>world = [(inRoot ''f.jpg'', [1]), (inRoot ''z.png'', [2])],
      calls = [ReadFile (inRoot ''a.png''), ReadFile (inRoot ''f.png''),
               WriteFile (inRoot ''f.jpg'') [1], RemoveAll (inRoot ''f.png'')],
      logged = [''Failed to read image file: no such file or directory'',
                ''Error processing directory: permission denied''],
      printed = [''Image conversion successful: '' @ inRoot ''f.jpg'' @ [CHR 0x0A]]\<rparr>"
proof -
  have r: "logged (snd (walkFn (demoSys [] []) (inRoot ''a.png'') regular None (demoProcess []))) =
     [''Failed to read image file: no such file or directory'']"
    using walker_errors [where sys = "demoSys [] []" and path = "inRoot ''a.png''" and info = regular
      and s = "demoProcess []" and e = "''no such file or directory''"]
    by (simp add: demo_defs)
  have d: "logged (snd (walkFn (demoSys [] []) (inRoot ''b.png'') regular None
                  (demoProcess [(inRoot ''b.png'', [])]))) =
     [''Failed to convert image: unexpected EOF'']"
    using walker_errors [where sys = "demoSys [] []" and path = "inRoot ''b.png''" and info = regular
      and s = "demoProcess [(inRoot ''b.png'', [])]" and e = "''unexpected EOF''"
      and imageBytes = "[]"]
    by (simp add: demo_defs)
  have c: "logged (snd (walkFn (demoSys [] []) (inRoot ''c.png'') regular None
                  (demoProcess [(inRoot ''c.png'', [1, 2, 3, 4])]))) =
     [''Failed to convert image: image is too large to encode'']"
    using walker_errors [where sys = "demoSys [] []" and path = "inRoot ''c.png''" and info = regular
      and s = "demoProcess [(inRoot ''c.png'', [1, 2, 3, 4])]"
      and e = "''image is too large to encode''" and imageBytes = "[1, 2, 3, 4]"
      and img = "[1, 2, 3, 4]"]
    by (simp add: demo_defs)
  have w: "logged (snd (walkFn (demoSys [inRoot ''d.jpg''] []) (inRoot ''d.png'') regular None
                  (demoProcess [(inRoot ''d.png'', [1])]))) =
     [''Failed to write JPEG file: permission denied'']"
    using walker_errors [where sys = "demoSys [inRoot ''d.jpg''] []" and path = "inRoot ''d.png''"
      and info = regular and s = "demoProcess [(inRoot ''d.png'', [1])]"
      and e = "''permission denied''" and imageBytes = "[1]" and jpegBytes = "[1]"
      and w = "[(inRoot ''d.png'', [1])]"]
    by (simp add: demo_defs)
  have x: "logged (snd (walkFn (demoSys [] [inRoot ''e.png'']) (inRoot ''e.png'') regular None
                  (demoProcess [(inRoot ''e.png'', [1])]))) =
     [''Failed to delete PNG file: operation not permitted'']"
    using walker_errors [where sys = "demoSys [] [inRoot ''e.png'']" and path = "inRoot ''e.png''"
      and info = regular and s = "demoProcess [(inRoot ''e.png'', [1])]"
      and e = "''operation not permitted''" and imageBytes = "[1]" and jpegBytes = "[1]"
      and w = "[(inRoot ''e.jpg'', [1]), (inRoot ''e.png'', [1])]"
      and w' = "[(inRoot ''e.jpg'', [1]), (inRoot ''e.png'', [1])]"]
    by (simp add: demo_defs)
  have m: "main (demoSys [] [])
          ([(directoryPath, directory, None), (inRoot ''a.png'', regular, None),
            (inRoot ''f.png'', regular, None)] @
           (inRoot ''sub'', directory, Some ''permission denied'') #
           [(inRoot ''z.png'', regular, None)])
          (demoProcess [(inRoot ''f.png'', [1]), (inRoot ''z.png'', [2])]) =
     (Fatal, \<lparr>world = [(inRoot ''f.jpg'', [1]), (inRoot ''z.png'', [2])],
      calls = [ReadFile (inRoot ''a.png''), ReadFile (inRoot ''f.png''),
               WriteFile (inRoot ''f.jpg'') [1], RemoveAll (inRoot ''f.png'')],
      logged = [''Failed to read image file: no such file or directory'',
                ''Error processing directory: permission denied''],
      printed = [''Image conversion successful: '' @ inRoot ''f.jpg'' @ [CHR 0x0A]]\<rparr>)"
    using walker_errors [where sys = "demoSys [] []" and path = "inRoot ''sub''" and info = directory
      and s = "demoProcess [(inRoot ''f.png'', [1]), (inRoot ''z.png'', [2])]"
      and e = "''permission denied''"
      and before = "[(directoryPath, directory, None), (inRoot ''a.png'', regular, None),
            (inRoot ''f.png'', regular, None)]"
      and visits = "[(inRoot ''z.png'', regular, None)]"]
    by (simp add: demo_defs)
  from r d c w x m show ?thesis by simp
qed

subsection \<open>The original is deleted only after the JPEG file is written\<close>

text \<open>
  Claim C9. For a regular file with extension \<open>.png\<close>: when reading, converting and
  writing succeed, the calls are, in this order, the read, the write of the JPEG bytes and
  the deletion of the original, and the deletion acts on the file system that the write
  left. When reading, converting or writing fails, the walker makes no call that deletes
  anything, and the file system is the one before the visit or the one the failed write
  left.
\<close>

theorem delete_after_write:
  assumes "\<not> IsDir info" and "Ext path = ''.png''"
  shows "outputPath path ''.png'' \<noteq> path \<and>
         (os_ReadFile sys (world s) path = Inr imageBytes \<and>
          ToJpeg sys imageBytes = Inr jpegBytes \<and>
          os_WriteFile sys (world s) (outputPath path ''.png'') jpegBytes = (None, w) \<longrightarrow>
            calls (snd (walkFn sys path info None s)) =
              calls s @
                [ReadFile path, WriteFile (outputPath path ''.png'') jpegBytes, RemoveAll path] \<and>
            world (snd (walkFn sys path info None s)) = snd (os_RemoveAll sys w path)) \<and>
         (os_ReadFile sys (world s) path = Inl e \<or>
          (os_ReadFile sys (world s) path = Inr imageBytes \<and> ToJpeg sys imageBytes = Inl e) \<or>
          (os_ReadFile sys (world s) path = Inr imageBytes \<and>
           ToJpeg sys imageBytes = Inr jpegBytes \<and>
           os_WriteFile sys (world s) (outputPath path ''.png'') jpegBytes = (Some e, w)) \<longrightarrow>
            (\<exists>cs. calls (snd (walkFn sys path info None s)) = calls s @ cs \<and>
                  (\<forall>p. RemoveAll p \<notin> set cs)) \<and>
            (world (snd (walkFn sys path info None s)) = world s \<or>
             world (snd (walkFn sys path info None s)) = w))"
proof (intro conjI impI)
  show "outputPath path ''.png'' \<noteq> path" by (rule outputPath_differs [OF assms(2)])
next
  assume ok: "os_ReadFile sys (world s) path = Inr imageBytes \<and>
          ToJpeg sys imageBytes = Inr jpegBytes \<and>
          os_WriteFile sys (world s) (outputPath path ''.png'') jpegBytes = (None, w)"
  then show "calls (snd (walkFn sys path info None s)) =
      calls s @ [ReadFile path, WriteFile (outputPath path ''.png'') jpegBytes, RemoveAll path]"
    using walkFn_written [OF assms, of sys s imageBytes jpegBytes w] by simp
  from ok show "world (snd (walkFn sys path info None s)) = snd (os_RemoveAll sys w path)"
    using walkFn_written [OF assms, of sys s imageBytes jpegBytes w] by simp
next
  assume bad: "os_ReadFile sys (world s) path = Inl e \<or>
          (os_ReadFile sys (world s) path = Inr imageBytes \<and> ToJpeg sys imageBytes = Inl e) \<or>
          (os_ReadFile sys (world s) path = Inr imageBytes \<and>
           ToJpeg sys imageBytes = Inr jpegBytes \<and>
           os_WriteFile sys (world s) (outputPath path ''.png'') jpegBytes = (Some e, w))"
  then consider
      (rd) "os_ReadFile sys (world s) path = Inl e"
    | (cv) "os_ReadFile sys (world s) path = Inr imageBytes" "ToJpeg sys imageBytes = Inl e"
    | (wr) "os_ReadFile sys (world s) path = Inr imageBytes" "ToJpeg sys imageBytes = Inr jpegBytes"
        "os_WriteFile sys (world s) (outputPath path ''.png'') jpegBytes = (Some e, w)"
    by blast
  then have st: "snd (walkFn sys path info None s) =
        s\<lparr>calls := calls s @ [ReadFile path],
          logged := logged s @ [''Failed to read image file: '' @ e]\<rparr> \<or>
      snd (walkFn sys path info None s) =
        s\<lparr>calls := calls s @ [ReadFile path],
          logged := logged s @ [''Failed to convert image: '' @ e]\<rparr> \<or>
      snd (walkFn sys path info None s) =
        s\<lparr>world := w,
          calls := calls s @ [ReadFile path, WriteFile (outputPath path ''.png'') jpegBytes],
          logged := logged s @ [''Failed to write JPEG file: '' @ e]\<rparr>"
  proof cases
    case rd
    then show ?thesis using walkFn_read_fails [OF assms] by blast
  next
    case cv
    then show ?thesis using walkFn_convert_fails [OF assms] by blast
  next
    case wr
    then have "snd (walkFn sys path info None s) =
        s\<lparr>world := w,
          calls := calls s @ [ReadFile path, WriteFile (outputPath path ''.png'') jpegBytes],
          logged := logged s @ [''Failed to write JPEG file: '' @ e]\<rparr>"
      by (rule walkFn_write_fails [OF assms])
    then show ?thesis by (intro disjI2)
  qed
  from st show "\<exists>cs. calls (snd (walkFn sys path info None s)) = calls s @ cs \<and>
      (\<forall>p. RemoveAll p \<notin> set cs)"
    by (elim disjE) simp_all
  from st show "world (snd (walkFn sys path info None s)) = world s \<or>
      world (snd (walkFn sys path info None s)) = w"
    by (elim disjE) simp_all
qed

theorem delete_after_write_witness:
  "calls (snd (walkFn (demoSys [] []) (inRoot ''a.png'') regular None
                 (demoProcess [(inRoot ''a.png'', [1])]))) =
     [ReadFile (inRoot ''a.png''), WriteFile (inRoot ''a.jpg'') [1], RemoveAll (inRoot ''a.png'')] \<and>
   world (snd (walkFn (demoSys [] []) (inRoot ''a.png'') regular None
                 (demoProcess [(inRoot ''a.png'', [1])]))) = [(inRoot ''a.jpg'', [1])] \<and>
   (\<exists>cs. calls (snd (walkFn (demoSys [inRoot ''d.jpg''] []) (inRoot ''d.png'') regular None
                       (demoProcess [(inRoot ''d.png'', [1])]))) =
           calls (demoProcess [(inRoot ''d.png'', [1])]) @ cs \<and>
         (\<forall>p. RemoveAll p \<notin> set cs)) \<and>
   world (snd (walkFn (demoSys [inRoot ''d.jpg''] []) (inRoot ''d.png'') regular None
                 (demoProcess [(inRoot ''d.png'', [1])]))) = [(inRoot ''d.png'', [1])]"
proof -
  have ok: "calls (snd (walkFn (demoSys [] []) (inRoot ''a.png'') regular None
                 (demoProcess [(inRoot ''a.png'', [1])]))) =
     [ReadFile (inRoot ''a.png''), WriteFile (inRoot ''a.jpg'') [1], RemoveAll (inRoot ''a.png'')] \<and>
   world (snd (walkFn (demoSys [] []) (inRoot ''a.png'') regular None
                 (demoProcess [(inRoot ''a.png'', [1])]))) = [(inRoot ''a.jpg'', [1])]"
    using delete_after_write [where sys = "demoSys [] []" and path = "inRoot ''a.png''"
      and info = regular and s = "demoProcess [(inRoot ''a.png'', [1])]"
      and imageBytes = "[1]" and jpegBytes = "[1]"
      and w = "[(inRoot ''a.jpg'', [1]), (inRoot ''a.png'', [1])]"]
    by (simp add: demo_defs)
  have h1: "\<not> IsDir regular" by (simp add: regular_def)
  have h2: "Ext (inRoot ''d.png'') = ''.png''" by (simp add: Ext_inRoot)
  have h3: "os_ReadFile (demoSys [inRoot ''d.jpg''] []) (world (demoProcess [(inRoot ''d.png'', [1])]))
      (inRoot ''d.png'') = Inr [1] \<and>
    ToJpeg (demoSys [inRoot ''d.jpg''] []) [1] = Inr [1] \<and>
    os_WriteFile (demoSys [inRoot ''d.jpg''] []) (world (demoProcess [(inRoot ''d.png'', [1])]))
      (outputPath (inRoot ''d.png'') ''.png'') [1] =
      (Some ''permission denied'', [(inRoot ''d.png'', [1])])"
    by (simp add: demo_defs)
  have bad: "(\<exists>cs. calls (snd (walkFn (demoSys [inRoot ''d.jpg''] []) (inRoot ''d.png'') regular None
                       (demoProcess [(inRoot ''d.png'', [1])]))) =
           calls (demoProcess [(inRoot ''d.png'', [1])]) @ cs \<and>
         (\<forall>p. RemoveAll p \<notin> set cs)) \<and>
     (world (snd (walkFn (demoSys [inRoot ''d.jpg''] []) (inRoot ''d.png'') regular None
                 (demoProcess [(inRoot ''d.png'', [1])]))) =
        world (demoProcess [(inRoot ''d.png'', [1])]) \<or>
      world (snd (walkFn (demoSys [inRoot ''d.jpg''] []) (inRoot ''d.png'') regular None
                 (demoProcess [(inRoot ''d.png'', [1])]))) = [(inRoot ''d.png'', [1])])"
    using delete_after_write [OF h1 h2, where sys = "demoSys [inRoot ''d.jpg''] []"
      and s = "demoProcess [(inRoot ''d.png'', [1])]" and imageBytes = "[1]" and jpegBytes = "[1]"
      and e = "''permission denied''" and w = "[(inRoot ''d.png'', [1])]"] h3
    by blast
  then have "world (snd (walkFn (demoSys [inRoot ''d.jpg''] []) (inRoot ''d.png'') regular None
                 (demoProcess [(inRoot ''d.png'', [1])]))) = [(inRoot ''d.png'', [1])]"
    by (auto simp add: demoProcess_def)
  with ok bad show ?thesis by blast
qed

end
